theory Spec2Isabelle
  imports Complex_Main "HOL-Library.Word" "HOL-Library.AList"
begin

section \<open>Strings and numbers of the host language\<close>

text \<open>
  A string of the program is a sequence of 16-bit code units. The ASCII part of a
  literal is written with \<open>ascii\<close>; every other character of the source text is
  written as its code units (\<open>0xBF\<close> is the inverted question mark, \<open>0xE1\<close>,
  \<open>0xE9\<close>, \<open>0xED\<close>, \<open>0xF3\<close>, \<open>0xFA\<close> the acute vowels a, e, i, o, u,
  \<open>0xF1\<close> the n with tilde, \<open>0x2013\<close> the en dash, and
  \<open>0xD83D, 0xDDFA, 0xFE0F\<close> the world-map emoji with its variation selector).
\<close>

type_synonym jsstring = "16 word list"

definition ascii :: "string \<Rightarrow> jsstring" where
  "ascii s = map (\<lambda>c. of_nat (of_char c)) s"

definition nl :: jsstring where
  "nl = [0x0A]"

text \<open>
  \<open>String.prototype.trim\<close> removes the white space and line terminator code units
  of the language standard from both ends of a string.
\<close>

definition isWhiteSpace :: "16 word \<Rightarrow> bool" where
  "isWhiteSpace c =
     (c \<in> set [0x09, 0x0A, 0x0B, 0x0C, 0x0D, 0x20, 0xA0, 0x1680, 0x2028, 0x2029,
                0x202F, 0x205F, 0x3000, 0xFEFF]
      \<or> (0x2000 \<le> c \<and> c \<le> 0x200A))"

definition trim :: "jsstring \<Rightarrow> jsstring" where
  "trim s = rev (dropWhile isWhiteSpace (rev (dropWhile isWhiteSpace s)))"

text \<open>\<open>Array.prototype.join\<close>: the separator stands between any two neighbours.\<close>

fun join :: "jsstring \<Rightarrow> jsstring list \<Rightarrow> jsstring" where
  "join sep [] = []"
| "join sep [x] = x"
| "join sep (x # y # ys) = x @ sep @ join sep (y # ys)"

text \<open>A number that is a natural number or an integer prints in decimal.\<close>

fun toString_nat :: "nat \<Rightarrow> jsstring" where
  "toString_nat n =
     (if n < 10 then [0x30 + of_nat n]
      else toString_nat (n div 10) @ [0x30 + of_nat (n mod 10)])"

definition toString_int :: "int \<Rightarrow> jsstring" where
  "toString_int i =
     (if i < 0 then ascii ''-'' @ toString_nat (nat (- i)) else toString_nat (nat i))"

text \<open>
  \<open>Math.round\<close> gives the nearest integer, a tie going upwards. The quotient
  \<open>filled / total * 100\<close> is computed here in exact rational arithmetic: with
  \<open>total = 12\<close> and \<open>filled \<le> 12\<close> the exact value is an integer or lies at
  least \<open>1/6\<close> away from every tie, so the double-precision result of the program
  rounds to the same integer.
\<close>

definition Math_round :: "rat \<Rightarrow> int" where
  "Math_round x = \<lfloor>x + 1 / 2\<rfloor>"

text \<open>
  \<open>String.prototype.padStart\<close>: a string shorter than the target length is filled
  on the left with repetitions of the fill string, cut to the missing length.
\<close>

definition padStart :: "nat \<Rightarrow> jsstring \<Rightarrow> jsstring \<Rightarrow> jsstring" where
  "padStart maxLength fillString s =
     (if maxLength \<le> length s \<or> fillString = [] then s
      else take (maxLength - length s)
             (concat (replicate (maxLength - length s) fillString)) @ s)"

text \<open>\<open>String.prototype.includes\<close>: the argument occurs as a contiguous part.\<close>

fun startsWith :: "jsstring \<Rightarrow> jsstring \<Rightarrow> bool" where
  "startsWith s [] = True"
| "startsWith [] (p # ps) = False"
| "startsWith (c # cs) (p # ps) = (c = p \<and> startsWith cs ps)"

fun includes_str :: "jsstring \<Rightarrow> jsstring \<Rightarrow> bool" where
  "includes_str [] sub = (sub = [])"
| "includes_str (c # cs) sub = (startsWith (c # cs) sub \<or> includes_str cs sub)"

section \<open>The question catalog\<close>

record Block =
  id' :: jsstring
  numero :: jsstring
  titulo :: jsstring
  pregunta :: jsstring

definition block_b1 :: Block where
  "block_b1 = \<lparr>
     id' = ascii ''b1'',
     numero = ascii ''01.'',
     titulo = ascii ''Barreras actuales'',
     pregunta =
       [0xBF] @ ascii ''Qu'' @ [0xE9] @ ascii '' procesos internos (ciclos de aprobaci'' @
       [0xF3] @ ascii ''n, sistemas legados, compliance) o limitaciones presupuestal'' @
       ascii ''es est'' @ [0xE1] @ ascii ''n frenando hoy la adopci'' @ [0xF3] @
       ascii ''n de nuevas arquitecturas tecnol'' @ [0xF3] @ ascii ''gicas en su organizaci'' @
       [0xF3] @ ascii ''n?''\<rparr>"

definition block_b2 :: Block where
  "block_b2 = \<lparr>
     id' = ascii ''b2'',
     numero = ascii ''02.'',
     titulo = ascii ''Prioridades estrat'' @ [0xE9] @ ascii ''gicas'',
     pregunta =
       [0xBF] @ ascii ''Qu'' @ [0xE9] @ ascii '' capacidades t'' @ [0xE9] @
       ascii ''cnicas (infraestructura como c'' @ [0xF3] @
       ascii ''digo, observabilidad, resiliencia, seguridad cloud) necesita'' @
       ascii '' el equipo de TI para sostener y escalar la transformaci'' @ [0xF3] @
       ascii ''n digital?''\<rparr>"

definition block_b3 :: Block where
  "block_b3 = \<lparr>
     id' = ascii ''b3'',
     numero = ascii ''03.'',
     titulo = ascii ''Intereses profesionales'',
     pregunta =
       [0xBF] @ ascii ''Qu'' @ [0xE9] @ ascii '' '' @ [0xE1] @ ascii ''reas de especializaci'' @
       [0xF3] @ ascii ''n (microservicios, contenedores, automatizaci'' @ [0xF3] @
       ascii ''n, IA operativa, anal'' @ [0xED] @
       ascii ''tica avanzada) son prioritarias para fortalecer el desarroll'' @
       ascii ''o de su equipo?''\<rparr>"

definition block_b4 :: Block where
  "block_b4 = \<lparr>
     id' = ascii ''b4'',
     numero = ascii ''04.'',
     titulo = ascii ''Riesgos percibidos'',
     pregunta =
       [0xBF] @ ascii ''Qu'' @ [0xE9] @ ascii '' riesgos (p'' @ [0xE9] @
       ascii ''rdida de datos, interrupciones, brechas de seguridad, vendor'' @
       ascii '' lock-in, sobrecostos) generan mayor cautela al desplegar so'' @
       ascii ''luciones de mediano y largo plazo?''\<rparr>"

definition block_b5 :: Block where
  "block_b5 = \<lparr>
     id' = ascii ''b5'',
     numero = ascii ''05.'',
     titulo = ascii ''Visi'' @ [0xF3] @ ascii ''n a futuro'',
     pregunta =
       [0xBF] @ ascii ''C'' @ [0xF3] @ ascii ''mo imagina que deber'' @ [0xED] @
       ascii ''a funcionar el '' @ [0xE1] @ ascii ''rea de TI en 3'' @ [0x2013] @ ascii ''5 a'' @
       [0xF1] @ ascii ''os para garantizar agilidad, estabilidad y escalabilidad des'' @
       ascii ''pu'' @ [0xE9] @ ascii ''s de estas transformaciones?''\<rparr>"

definition block_b6 :: Block where
  "block_b6 = \<lparr>
     id' = ascii ''b6'',
     numero = ascii ''06.'',
     titulo = ascii ''Incentivos y alineaci'' @ [0xF3] @ ascii ''n'',
     pregunta =
       [0xBF] @ ascii ''Qu'' @ [0xE9] @
       ascii '' reconocimientos o beneficios (KPIs de despliegue continuo, '' @
       ascii ''reducci'' @ [0xF3] @ ascii ''n de incidentes, certificaciones t'' @ [0xE9] @
       ascii ''cnicas, productividad de equipos) reforzar'' @ [0xED] @
       ascii ''an el compromiso de su unidad con estas iniciativas?''\<rparr>"

definition block_b7 :: Block where
  "block_b7 = \<lparr>
     id' = ascii ''b7'',
     numero = ascii ''07.'',
     titulo = ascii ''Red de influencia'',
     pregunta =
       [0xBF] @ ascii ''Qu'' @ [0xE9] @ ascii '' comunidades t'' @ [0xE9] @
       ascii ''cnicas internas (comit'' @ [0xE9] @
       ascii ''s de arquitectura, foros DevOps) o externas (Oracle User Gro'' @
       ascii ''ups, conferencias de cloud, asociaciones sectoriales) influy'' @ ascii ''en m'' @
       [0xE1] @ ascii ''s en sus decisiones de dise'' @ [0xF1] @ ascii ''o e implementaci'' @
       [0xF3] @ ascii ''n?''\<rparr>"

definition block_b8 :: Block where
  "block_b8 = \<lparr>
     id' = ascii ''b8'',
     numero = ascii ''08.'',
     titulo = ascii ''Proveedores actuales'',
     pregunta =
       [0xBF] @ ascii ''Qu'' @ [0xE9] @ ascii '' proveedores tecnol'' @ [0xF3] @
       ascii ''gicos o integradores (Oracle, Red Hat, AWS, Azure, Microsoft'' @
       ascii '', firmas locales) han demostrado valor en proyectos similare'' @ ascii ''s y c'' @
       [0xF3] @ ascii ''mo se percibe su aporte?''\<rparr>"

definition block_b9 :: Block where
  "block_b9 = \<lparr>
     id' = ascii ''b9'',
     numero = ascii ''09.'',
     titulo = ascii ''Madurez digital'',
     pregunta =
       [0xBF] @ ascii ''C'' @ [0xF3] @ ascii ''mo se eval'' @ [0xFA] @
       ascii ''a actualmente el nivel de madurez digital de la organizaci'' @ [0xF3] @
       ascii ''n en pr'' @ [0xE1] @
       ascii ''cticas DevOps (CI/CD, testing automatizado, despliegue conti'' @
       ascii ''nuo, FinOps) y en adopci'' @ [0xF3] @ ascii ''n multicloud?''\<rparr>"

definition block_b10 :: Block where
  "block_b10 = \<lparr>
     id' = ascii ''b10'',
     numero = ascii ''10.'',
     titulo = ascii ''Motivadores clave'',
     pregunta =
       [0xBF] @ ascii ''Qu'' @ [0xE9] @
       ascii '' beneficios (mayor agilidad de entrega, estabilidad de servi'' @
       ascii ''cios, reducci'' @ [0xF3] @ ascii ''n de incidentes cr'' @ [0xED] @
       ascii ''ticos, ahorro de costos, productividad de desarrolladores) m'' @
       ascii ''otivan m'' @ [0xE1] @ ascii ''s a su equipo para acelerar estas iniciativas?''\<rparr>"

definition block_b11 :: Block where
  "block_b11 = \<lparr>
     id' = ascii ''b11'',
     numero = ascii ''11.'',
     titulo = ascii ''Criterios de '' @ [0xE9] @ ascii ''xito'',
     pregunta =
       [0xBF] @ ascii ''Qu'' @ [0xE9] @ ascii '' mejoras tangibles (menos fallos en producci'' @
       [0xF3] @ ascii ''n, tiempos de recuperaci'' @ [0xF3] @ ascii ''n m'' @ [0xE1] @
       ascii ''s cortos, mayor velocidad de releases, reducci'' @ [0xF3] @
       ascii ''n de TCO) deben evidenciar para considerar exitosos los proy'' @ ascii ''ectos?''\<rparr>"

definition block_b12 :: Block where
  "block_b12 = \<lparr>
     id' = ascii ''b12'',
     numero = ascii ''12.'',
     titulo = ascii ''Lecciones previas'',
     pregunta =
       [0xBF] @ ascii ''Qu'' @ [0xE9] @
       ascii '' errores de proyectos anteriores (despliegues manuales, falt'' @
       ascii ''a de rollback, integraciones fallidas, configuraciones dispe'' @
       ascii ''rsas) buscan evitar para garantizar el '' @ [0xE9] @
       ascii ''xito en esta nueva etapa?''\<rparr>"

definition BLOCKS :: "Block list" where
  "BLOCKS = [block_b1, block_b2, block_b3, block_b4, block_b5, block_b6, block_b7, block_b8, block_b9, block_b10, block_b11, block_b12]"

section \<open>The text report\<close>

text \<open>
  An answers object: its own string-keyed properties in insertion order (the order of
  keys that are not array indices; the catalog ids are none). \<open>answers[k]\<close> is
  \<open>map_of answers k\<close>, with \<open>None\<close> for \<open>undefined\<close>.
\<close>

type_synonym Answers = "(jsstring \<times> jsstring) list"

text \<open>\<open>v?.trim()\<close>, the truth value of a string or \<open>undefined\<close>, and \<open>v || d\<close>.\<close>

definition optTrim :: "jsstring option \<Rightarrow> jsstring option" where
  "optTrim v = (case v of None \<Rightarrow> None | Some s \<Rightarrow> Some (trim s))"

definition truthy :: "jsstring option \<Rightarrow> bool" where
  "truthy v = (case v of None \<Rightarrow> False | Some s \<Rightarrow> s \<noteq> [])"

definition orElse :: "jsstring option \<Rightarrow> jsstring \<Rightarrow> jsstring" where
  "orElse v d = (case v of None \<Rightarrow> d | Some s \<Rightarrow> if s = [] then d else s)"

definition report_title :: jsstring where
  "report_title =
     [0xD83D, 0xDDFA, 0xFE0F] @ ascii '' Mapa Descriptivo del Cliente '' @ [0x2013] @
     ascii '' Implementadores del Sector Privado''"

definition buildTXTContent :: "Answers \<Rightarrow> jsstring" where
  "buildTXTContent answers =
     (let total = length BLOCKS;
          filled = foldl (\<lambda>acc b. acc + (if truthy (optTrim (map_of answers (id' b)))
                                           then 1 else 0)) (0::nat) BLOCKS;
          progress = Math_round ((of_nat filled / of_nat total) * 100);
          header = join nl
            [report_title,
             ascii ''Progreso: '' @ toString_nat filled @ ascii ''/'' @ toString_nat total @
               ascii '' ('' @ toString_int progress @ ascii ''%)'',
             []];
          lines = foldl (\<lambda>lines b. lines @
                    [numero b @ ascii '' '' @ titulo b,
                     pregunta b,
                     orElse (optTrim (map_of answers (id' b))) (ascii ''[Sin respuesta]''),
                     []]) [] BLOCKS
      in header @ join nl lines)"

section \<open>The component state\<close>

record state =
  answers :: Answers
  completed :: "jsstring list"
  focusId :: jsstring

definition initial_state :: state where
  "initial_state = \<lparr>answers = [], completed = [], focusId = id' (BLOCKS ! 0)\<rparr>"

text \<open>The progress figures of the component (recomputed on every render).\<close>

definition total' :: nat where
  "total' = length BLOCKS"

definition filled :: "state \<Rightarrow> nat" where
  "filled st =
     foldl (\<lambda>acc b. acc + (if truthy (optTrim (map_of (answers st) (id' b))) then 1 else 0))
       0 BLOCKS"

definition progress :: "state \<Rightarrow> int" where
  "progress st = Math_round ((of_nat (filled st) / of_nat total') * 100)"

definition onToggleComplete :: "jsstring \<Rightarrow> state \<Rightarrow> state" where
  "onToggleComplete i st =
     st\<lparr>completed :=
          (if i \<in> set (completed st) then filter (\<lambda>x. x \<noteq> i) (completed st)
           else completed st @ [i])\<rparr>"

text \<open>
  \<open>{...prev, [id]: value}\<close>: an existing key keeps its place and takes the new
  value, a new key is added last.
\<close>

definition onChange :: "jsstring \<Rightarrow> jsstring \<Rightarrow> state \<Rightarrow> state" where
  "onChange i v st = st\<lparr>answers := AList.update i v (answers st)\<rparr>"

text \<open>The rendering of one card: the bound value, the highlight and the counter.\<close>

definition card_value :: "state \<Rightarrow> Block \<Rightarrow> jsstring" where
  "card_value st b = orElse (map_of (answers st) (id' b)) []"

definition isComplete :: "state \<Rightarrow> Block \<Rightarrow> bool" where
  "isComplete st b = (id' b \<in> set (completed st) \<or> trim (card_value st b) \<noteq> [])"

definition count :: "state \<Rightarrow> Block \<Rightarrow> nat" where
  "count st b = length (trim (card_value st b))"

text \<open>The click handler of the clear button of a card.\<close>

definition onLimpiar :: "Block \<Rightarrow> state \<Rightarrow> state" where
  "onLimpiar b st = onChange (id' b) [] st"

section \<open>Keyboard navigation\<close>

datatype error = TypeError | SyntaxError | QuotaExceededError

datatype effect = PreventDefault | ScrollToCard jsstring | Download jsstring jsstring

record KeyboardEvent =
  key :: jsstring
  ctrlKey :: bool
  metaKey :: bool
  altKey :: bool

text \<open>\<open>Array.prototype.findIndex\<close> gives \<open>-1\<close> when no element matches.\<close>

fun findIndex :: "('a \<Rightarrow> bool) \<Rightarrow> 'a list \<Rightarrow> int" where
  "findIndex P [] = - 1"
| "findIndex P (x # xs) =
     (if P x then 0 else (let r = findIndex P xs in if r < 0 then - 1 else r + 1))"

text \<open>Reading an array at an index: \<open>None\<close> is \<open>undefined\<close>.\<close>

definition at_index :: "'a list \<Rightarrow> int \<Rightarrow> 'a option" where
  "at_index xs i = (if 0 \<le> i \<and> i < int (length xs) then Some (xs ! nat i) else None)"

text \<open>
  \<open>String.prototype.toLowerCase\<close> on the letters A to Z. The handler compares the
  result with \<open>enter\<close>, \<open>e\<close> and \<open>x\<close> only, and no character outside ASCII has
  one of the letters of these words as its lower case.
\<close>

definition toLowerCase :: "jsstring \<Rightarrow> jsstring" where
  "toLowerCase s = map (\<lambda>c. if 0x41 \<le> c \<and> c \<le> 0x5A then c + 0x20 else c) s"

definition exportTXT :: "Answers \<Rightarrow> effect" where
  "exportTXT a =
     Download (ascii ''canvas_implementadores_sector_privado.txt'') (buildTXTContent a)"

text \<open>
  The key handler. It is registered anew whenever \<open>focusId\<close> changes, so it reads
  \<open>focusId\<close> and \<open>answers\<close> from the render that registered it (\<open>cap\<close>), and
  it updates the current state \<open>st\<close>. Reading \<open>.id\<close> of \<open>undefined\<close> throws.
\<close>

definition h :: "state \<Rightarrow> KeyboardEvent \<Rightarrow> state \<Rightarrow> error + state \<times> effect list" where
  "h cap e st =
     (let idx = findIndex (\<lambda>b. id' b = focusId cap) BLOCKS in
      case (if key e = ascii ''ArrowDown''
            then (case at_index BLOCKS (min (int (length BLOCKS) - 1) (idx + 1)) of
                    None \<Rightarrow> Inl TypeError
                  | Some b \<Rightarrow>
                      Inr (st\<lparr>focusId := id' b\<rparr>, [PreventDefault, ScrollToCard (id' b)]))
            else Inr (st, [])) of
        Inl err \<Rightarrow> Inl err
      | Inr (st1, fx1) \<Rightarrow>
     (case (if key e = ascii ''ArrowUp''
            then (case at_index BLOCKS (max 0 (idx - 1)) of
                    None \<Rightarrow> Inl TypeError
                  | Some b \<Rightarrow>
                      Inr (st1\<lparr>focusId := id' b\<rparr>, [PreventDefault, ScrollToCard (id' b)]))
            else Inr (st1, [])) of
        Inl err \<Rightarrow> Inl err
      | Inr (st2, fx2) \<Rightarrow>
          (let (st3, fx3) =
                 (if (ctrlKey e \<or> metaKey e) \<and> toLowerCase (key e) = ascii ''enter''
                  then (onToggleComplete (focusId cap) st2, [PreventDefault])
                  else (st2, []));
               fx4 =
                 (if altKey e \<and> (toLowerCase (key e) = ascii ''e''
                                 \<or> toLowerCase (key e) = ascii ''x'')
                  then [PreventDefault, exportTXT (answers cap)]
                  else [])
           in Inr (st3, fx1 @ fx2 @ fx3 @ fx4))))"


section \<open>Persistence\<close>

definition KEY :: jsstring where
  "KEY = ascii ''canvas_decisores_publico_v1''"

record Persisted =
  answers' :: Answers
  completed' :: "jsstring list"

subsection \<open>The storage of the browser\<close>

text \<open>
  The storage holds string items under string keys. How much it accepts is up to the
  browser; the model takes the limit as a number of code units (\<open>quota\<close>), and
  \<open>setItem\<close> throws when the items would exceed it.
\<close>

record storage =
  items :: "(jsstring \<times> jsstring) list"
  quota :: nat

definition used :: "(jsstring \<times> jsstring) list \<Rightarrow> nat" where
  "used kvs = sum_list (map (\<lambda>(k, v). length k + length v) kvs)"

definition getItem :: "storage \<Rightarrow> jsstring \<Rightarrow> jsstring option" where
  "getItem s k = map_of (items s) k"

definition setItem :: "storage \<Rightarrow> jsstring \<Rightarrow> jsstring \<Rightarrow> error + storage" where
  "setItem s k v =
     (let kvs = AList.update k v (items s)
      in if quota s < used kvs then Inl QuotaExceededError else Inr (s\<lparr>items := kvs\<rparr>))"

definition removeItem :: "storage \<Rightarrow> jsstring \<Rightarrow> storage" where
  "removeItem s k = s\<lparr>items := AList.delete k (items s)\<rparr>"

subsection \<open>Writing JSON\<close>

definition hexdigit :: "nat \<Rightarrow> 16 word" where
  "hexdigit n = (if n < 10 then 0x30 + of_nat n else 0x61 + of_nat (n - 10))"

definition unicode_escape :: "16 word \<Rightarrow> jsstring" where
  "unicode_escape c =
     [0x5C, 0x75, hexdigit (unat c div 4096), hexdigit (unat c div 256 mod 16),
      hexdigit (unat c div 16 mod 16), hexdigit (unat c mod 16)]"

definition is_high_surrogate :: "16 word \<Rightarrow> bool" where
  "is_high_surrogate c = (0xD800 \<le> c \<and> c \<le> 0xDBFF)"

definition is_low_surrogate :: "16 word \<Rightarrow> bool" where
  "is_low_surrogate c = (0xDC00 \<le> c \<and> c \<le> 0xDFFF)"

text \<open>
  The characters of a quoted string: the quotation mark and the backslash are escaped,
  control characters are written as their short or \<open>\u\<close> escape, a surrogate that is
  not part of a pair is written as a \<open>\u\<close> escape, everything else stands as it is.
\<close>

fun quote_chars :: "jsstring \<Rightarrow> jsstring" where
  "quote_chars [] = []"
| "quote_chars (c # cs) =
     (if c = 0x22 then [0x5C, 0x22] @ quote_chars cs
      else if c = 0x5C then [0x5C, 0x5C] @ quote_chars cs
      else if c = 0x08 then [0x5C, 0x62] @ quote_chars cs
      else if c = 0x0C then [0x5C, 0x66] @ quote_chars cs
      else if c = 0x0A then [0x5C, 0x6E] @ quote_chars cs
      else if c = 0x0D then [0x5C, 0x72] @ quote_chars cs
      else if c = 0x09 then [0x5C, 0x74] @ quote_chars cs
      else if c < 0x20 then unicode_escape c @ quote_chars cs
      else if is_high_surrogate c then
        (case cs of
           [] \<Rightarrow> unicode_escape c
         | d # ds \<Rightarrow>
             if is_low_surrogate d then c # d # quote_chars ds
             else unicode_escape c @ quote_chars cs)
      else if is_low_surrogate c then unicode_escape c @ quote_chars cs
      else c # quote_chars cs)"

definition quote :: "jsstring \<Rightarrow> jsstring" where
  "quote s = [0x22] @ quote_chars s @ [0x22]"

text \<open>\<open>JSON.stringify\<close> of a value of type \<open>Persisted\<close>.\<close>

definition JSON_stringify :: "Persisted \<Rightarrow> jsstring" where
  "JSON_stringify p =
     ascii ''{'' @ quote (ascii ''answers'') @ ascii '':'' @
       ascii ''{'' @
         join (ascii '','') (map (\<lambda>(k, v). quote k @ ascii '':'' @ quote v) (answers' p)) @
       ascii ''}'' @
     ascii '','' @ quote (ascii ''completed'') @ ascii '':'' @
       ascii ''['' @ join (ascii '','') (map quote (completed' p)) @ ascii '']'' @
     ascii ''}''"

subsection \<open>Reading JSON\<close>

text \<open>
  A parsed value. An object is the list of its members in insertion order. A number is
  kept as the characters of its literal: nothing in the program computes with one.
\<close>

datatype json =
  JNull
| JBool bool
| JNum jsstring
| JStr jsstring
| JArr "json list"
| JObj "(jsstring \<times> json) list"

definition is_json_ws :: "16 word \<Rightarrow> bool" where
  "is_json_ws c = (c = 0x20 \<or> c = 0x09 \<or> c = 0x0A \<or> c = 0x0D)"

definition skip_ws :: "jsstring \<Rightarrow> jsstring" where
  "skip_ws s = dropWhile is_json_ws s"

definition is_digit :: "16 word \<Rightarrow> bool" where
  "is_digit c = (0x30 \<le> c \<and> c \<le> 0x39)"

definition hexval :: "16 word \<Rightarrow> nat option" where
  "hexval c =
     (if 0x30 \<le> c \<and> c \<le> 0x39 then Some (unat c - 0x30)
      else if 0x61 \<le> c \<and> c \<le> 0x66 then Some (unat c - 0x61 + 10)
      else if 0x41 \<le> c \<and> c \<le> 0x46 then Some (unat c - 0x41 + 10)
      else None)"

definition unescape :: "16 word \<Rightarrow> 16 word option" where
  "unescape e =
     (if e = 0x22 then Some 0x22
      else if e = 0x5C then Some 0x5C
      else if e = 0x2F then Some 0x2F
      else if e = 0x62 then Some 0x08
      else if e = 0x66 then Some 0x0C
      else if e = 0x6E then Some 0x0A
      else if e = 0x72 then Some 0x0D
      else if e = 0x74 then Some 0x09
      else None)"

definition prepend :: "16 word \<Rightarrow> error + jsstring \<times> jsstring \<Rightarrow> error + jsstring \<times> jsstring" where
  "prepend c r = (case r of Inl err \<Rightarrow> Inl err | Inr (s, rest) \<Rightarrow> Inr (c # s, rest))"

text \<open>
  The characters of a string literal after its opening quotation mark: the result is
  the string and the input after the closing quotation mark.
\<close>

fun parse_string :: "jsstring \<Rightarrow> error + jsstring \<times> jsstring" where
  "parse_string [] = Inl SyntaxError"
| "parse_string (c # cs) =
     (if c = 0x22 then Inr ([], cs)
      else if c = 0x5C then
        (case cs of
           [] \<Rightarrow> Inl SyntaxError
         | e # es \<Rightarrow>
             if e = 0x75 then
               (case es of
                  h1 # h2 # h3 # h4 # r \<Rightarrow>
                    (case (hexval h1, hexval h2, hexval h3, hexval h4) of
                       (Some a, Some b, Some c', Some d) \<Rightarrow>
                         prepend (of_nat (((a * 16 + b) * 16 + c') * 16 + d)) (parse_string r)
                     | _ \<Rightarrow> Inl SyntaxError)
                | _ \<Rightarrow> Inl SyntaxError)
             else
               (case unescape e of
                  None \<Rightarrow> Inl SyntaxError
                | Some u \<Rightarrow> prepend u (parse_string es)))
      else if c < 0x20 then Inl SyntaxError
      else prepend c (parse_string cs))"

text \<open>
  A number literal: an optional minus sign, \<open>0\<close> or digits, an optional fraction and an
  optional exponent. The result is the literal and the input after it.
\<close>

definition parse_number :: "jsstring \<Rightarrow> error + jsstring \<times> jsstring" where
  "parse_number s =
     (let sign = (if startsWith s [0x2D] then [0x2D] else []);
          s1 = drop (length sign) s;
          ip = (if startsWith s1 [0x30] then [0x30] else takeWhile is_digit s1);
          s2 = drop (length ip) s1;
          fd = (if startsWith s2 [0x2E] then takeWhile is_digit (drop 1 s2) else []);
          frac = (if startsWith s2 [0x2E] then 0x2E # fd else []);
          s3 = drop (length frac) s2;
          hasExp = (startsWith s3 [0x65] \<or> startsWith s3 [0x45]);
          s4 = drop 1 s3;
          es = (if startsWith s4 [0x2B] then [0x2B]
                else if startsWith s4 [0x2D] then [0x2D] else []);
          ed = takeWhile is_digit (drop (length es) s4);
          ex = (if hasExp then take 1 s3 @ es @ ed else [])
      in if ip = [] \<or> (startsWith s2 [0x2E] \<and> fd = []) \<or> (hasExp \<and> ed = [])
         then Inl SyntaxError
         else Inr (sign @ ip @ frac @ ex, drop (length ex) s3))"

text \<open>
  The parser of values, with the arrays and objects it nests into. The first argument
  bounds the depth of the calls; \<open>None\<close> says that the bound was reached. A member
  that repeats a key replaces the earlier value.
\<close>

fun parse_value :: "nat \<Rightarrow> jsstring \<Rightarrow> (error + json \<times> jsstring) option"
  and parse_elements :: "nat \<Rightarrow> json list \<Rightarrow> jsstring \<Rightarrow> (error + json \<times> jsstring) option"
  and parse_members ::
    "nat \<Rightarrow> (jsstring \<times> json) list \<Rightarrow> jsstring \<Rightarrow> (error + json \<times> jsstring) option"
where
  "parse_value 0 s = None"
| "parse_value (Suc n) s =
     (case skip_ws s of
        [] \<Rightarrow> Some (Inl SyntaxError)
      | c # cs \<Rightarrow>
          if c = 0x22 then
            (case parse_string cs of
               Inl err \<Rightarrow> Some (Inl err)
             | Inr (str, r) \<Rightarrow> Some (Inr (JStr str, r)))
          else if c = 0x5B then
            (case skip_ws cs of
               [] \<Rightarrow> Some (Inl SyntaxError)
             | d # ds \<Rightarrow> if d = 0x5D then Some (Inr (JArr [], ds)) else parse_elements n [] cs)
          else if c = 0x7B then
            (case skip_ws cs of
               [] \<Rightarrow> Some (Inl SyntaxError)
             | d # ds \<Rightarrow> if d = 0x7D then Some (Inr (JObj [], ds)) else parse_members n [] cs)
          else if startsWith (c # cs) (ascii ''true'') then
            Some (Inr (JBool True, drop 4 (c # cs)))
          else if startsWith (c # cs) (ascii ''false'') then
            Some (Inr (JBool False, drop 5 (c # cs)))
          else if startsWith (c # cs) (ascii ''null'') then
            Some (Inr (JNull, drop 4 (c # cs)))
          else if c = 0x2D \<or> is_digit c then
            (case parse_number (c # cs) of
               Inl err \<Rightarrow> Some (Inl err)
             | Inr (lit, r) \<Rightarrow> Some (Inr (JNum lit, r)))
          else Some (Inl SyntaxError))"
| "parse_elements 0 acc s = None"
| "parse_elements (Suc n) acc s =
     (case parse_value n s of
        None \<Rightarrow> None
      | Some (Inl err) \<Rightarrow> Some (Inl err)
      | Some (Inr (v, r)) \<Rightarrow>
          (case skip_ws r of
             [] \<Rightarrow> Some (Inl SyntaxError)
           | c # cs \<Rightarrow>
               if c = 0x2C then parse_elements n (acc @ [v]) cs
               else if c = 0x5D then Some (Inr (JArr (acc @ [v]), cs))
               else Some (Inl SyntaxError)))"
| "parse_members 0 acc s = None"
| "parse_members (Suc n) acc s =
     (case skip_ws s of
        [] \<Rightarrow> Some (Inl SyntaxError)
      | q # qs \<Rightarrow>
          if q \<noteq> 0x22 then Some (Inl SyntaxError)
          else
            (case parse_string qs of
               Inl err \<Rightarrow> Some (Inl err)
             | Inr (k, r) \<Rightarrow>
                 (case skip_ws r of
                    [] \<Rightarrow> Some (Inl SyntaxError)
                  | d # ds \<Rightarrow>
                      if d \<noteq> 0x3A then Some (Inl SyntaxError)
                      else
                        (case parse_value n ds of
                           None \<Rightarrow> None
                         | Some (Inl err) \<Rightarrow> Some (Inl err)
                         | Some (Inr (v, r2)) \<Rightarrow>
                             (case skip_ws r2 of
                                [] \<Rightarrow> Some (Inl SyntaxError)
                              | c # cs \<Rightarrow>
                                  if c = 0x2C then parse_members n (AList.update k v acc) cs
                                  else if c = 0x7D then
                                    Some (Inr (JObj (AList.update k v acc), cs))
                                  else Some (Inl SyntaxError))))))"

text \<open>
  \<open>JSON.parse\<close>: one value, with nothing but white space after it. Of any two calls
  of the parser nested in one another at least one has read a character, so twice the
  length of the text, and one more, bounds the depth.
\<close>

definition JSON_parse :: "jsstring \<Rightarrow> (error + json) option" where
  "JSON_parse s =
     (case parse_value (Suc (2 * length s)) s of
        None \<Rightarrow> None
      | Some (Inl err) \<Rightarrow> Some (Inl err)
      | Some (Inr (v, r)) \<Rightarrow> if skip_ws r = [] then Some (Inr v) else Some (Inl SyntaxError))"

text \<open>
  Reading a property that no prototype defines (\<open>answers\<close>, \<open>completed\<close>,
  \<open>b1\<close>) of a value other than \<open>null\<close>: a member of an object, \<open>undefined\<close>
  (\<open>None\<close>) otherwise.
\<close>

definition get_prop :: "json \<Rightarrow> jsstring \<Rightarrow> json option" where
  "get_prop v k = (case v of JObj ms \<Rightarrow> map_of ms k | _ \<Rightarrow> None)"

text \<open>
  \<open>v || d\<close> for a parsed value or \<open>undefined\<close>, and the reading of a value as the
  type the program declares for it. \<open>None\<close> says that the value is not of that type;
  a number counts as such whatever its value.
\<close>

definition orDefault :: "json option \<Rightarrow> json \<Rightarrow> json" where
  "orDefault v d =
     (case v of
        None \<Rightarrow> d
      | Some JNull \<Rightarrow> d
      | Some (JBool b) \<Rightarrow> if b then JBool b else d
      | Some (JStr s) \<Rightarrow> if s = [] then d else JStr s
      | Some w \<Rightarrow> w)"

fun as_string :: "json \<Rightarrow> jsstring option" where
  "as_string (JStr s) = Some s"
| "as_string _ = None"

fun as_strings :: "json list \<Rightarrow> jsstring list option" where
  "as_strings [] = Some []"
| "as_strings (v # vs) =
     (case (as_string v, as_strings vs) of
        (Some s, Some ss) \<Rightarrow> Some (s # ss)
      | _ \<Rightarrow> None)"

fun as_members :: "(jsstring \<times> json) list \<Rightarrow> Answers option" where
  "as_members [] = Some []"
| "as_members ((k, v) # ms) =
     (case (as_string v, as_members ms) of
        (Some s, Some a) \<Rightarrow> Some ((k, s) # a)
      | _ \<Rightarrow> None)"

definition as_Answers :: "json \<Rightarrow> Answers option" where
  "as_Answers v = (case v of JObj ms \<Rightarrow> as_members ms | _ \<Rightarrow> None)"

definition as_completed :: "json \<Rightarrow> jsstring list option" where
  "as_completed v = (case v of JArr vs \<Rightarrow> as_strings vs | _ \<Rightarrow> None)"

subsection \<open>The effects of the component\<close>

text \<open>
  Loading at start: a missing or empty item leaves the state as it is; so does any
  exception, which the effect catches (a syntax error of the text, or reading a property
  of \<open>null\<close>). \<open>None\<close> stands for what the model leaves open: a stored value that
  is not of the type \<open>Persisted\<close> which the program declares for it.
\<close>

definition load_effect :: "storage \<Rightarrow> state \<Rightarrow> state option" where
  "load_effect s st =
     (case getItem s KEY of
        None \<Rightarrow> Some st
      | Some raw \<Rightarrow>
          if raw = [] then Some st
          else
            (case JSON_parse raw of
               None \<Rightarrow> None
             | Some (Inl err) \<Rightarrow> Some st
             | Some (Inr JNull) \<Rightarrow> Some st
             | Some (Inr parsed) \<Rightarrow>
                 (case (as_Answers (orDefault (get_prop parsed (ascii ''answers'')) (JObj [])),
                        as_completed (orDefault (get_prop parsed (ascii ''completed'')) (JArr [])))
                  of
                    (Some a, Some c) \<Rightarrow> Some (st\<lparr>answers := a, completed := c\<rparr>)
                  | _ \<Rightarrow> None)))"

text \<open>Saving after every change of the answers or of the completed list: no handler.\<close>

definition save_effect :: "state \<Rightarrow> storage \<Rightarrow> error + storage" where
  "save_effect st s =
     setItem s KEY (JSON_stringify \<lparr>answers' = answers st, completed' = completed st\<rparr>)"

section \<open>The self-check\<close>

datatype info = NoInfo | Info jsstring | ErrorInfo error

record test_result =
  name :: jsstring
  pass :: bool
  info :: info

text \<open>Checks 1 to 5, on the catalog.\<close>

definition catalog_checks :: "test_result list" where
  "catalog_checks =
     (let ids = map id' BLOCKS;
          unique = length (remdups ids);
          seq = list_all (\<lambda>(i, b). numero b =
                  padStart 2 (ascii ''0'') (toString_nat (i + 1)) @ ascii ''.'')
                  (enumerate 0 BLOCKS);
          nonEmpty = list_all (\<lambda>b. titulo b \<noteq> [] \<and> pregunta b \<noteq> []
                                    \<and> includes_str (pregunta b) [0xBF]) BLOCKS;
          spot = (includes_str (pregunta (BLOCKS ! 0)) (ascii ''presupuestales'')
                  \<and> includes_str (pregunta (BLOCKS ! 11))
                       (ascii ''baja adopci'' @ [0xF3] @ ascii ''n''))
      in [\<lparr>name = ascii ''12 bloques'', pass = (length BLOCKS = 12),
            info = Info (ascii ''count='' @ toString_nat (length BLOCKS))\<rparr>,
          \<lparr>name = ascii ''IDs '' @ [0xFA] @ ascii ''nicos'', pass = (unique = length ids),
            info = Info (ascii ''unique='' @ toString_nat unique)\<rparr>,
          \<lparr>name = ascii ''Numeraci'' @ [0xF3] @ ascii ''n secuencial'', pass = seq,
            info = NoInfo\<rparr>,
          \<lparr>name = ascii ''Contenido no vac'' @ [0xED] @ ascii ''o y con '' @ [0xBF],
            pass = nonEmpty, info = NoInfo\<rparr>,
          \<lparr>name = ascii ''Spot-check cadenas'', pass = spot, info = NoInfo\<rparr>])"

text \<open>
  Check 6, the round trip through the storage under a key of its own. An exception
  anywhere in it is caught and reported as a failed check.
\<close>

definition roundtrip_check :: "storage \<Rightarrow> (test_result \<times> storage) option" where
  "roundtrip_check s =
     (let key = KEY @ ascii ''_test'';
          payload = \<lparr>answers' = [(ascii ''b1'', ascii ''ok'')], completed' = [ascii ''b1'']\<rparr>;
          failed = (\<lambda>err. \<lparr>name = ascii ''localStorage roundtrip'', pass = False,
                            info = ErrorInfo err\<rparr>)
      in case setItem s key (JSON_stringify payload) of
           Inl err \<Rightarrow> Some (failed err, s)
         | Inr s1 \<Rightarrow>
             (case JSON_parse (orElse (getItem s1 key) (ascii ''{}'')) of
                None \<Rightarrow> None
              | Some (Inl err) \<Rightarrow> Some (failed err, s1)
              | Some (Inr back) \<Rightarrow>
                  (let s2 = removeItem s1 key in
                   case back of
                     JNull \<Rightarrow> Some (failed TypeError, s2)
                   | _ \<Rightarrow>
                     Some (\<lparr>name = ascii ''localStorage roundtrip'',
                            pass = (case get_prop back (ascii ''answers'') of
                                      None \<Rightarrow> False
                                    | Some JNull \<Rightarrow> False
                                    | Some a \<Rightarrow> get_prop a (ascii ''b1'') = Some (JStr (ascii ''ok''))),
                            info = NoInfo\<rparr>, s2))))"

text \<open>Check 7, the report of the empty answers object.\<close>

definition txt_check :: test_result where
  "txt_check =
     (let sample = buildTXTContent [];
          ok = (includes_str sample
                  ([0xD83D, 0xDDFA, 0xFE0F] @ ascii '' Mapa Descriptivo del Cliente'')
                \<and> includes_str sample (ascii ''01.'')
                \<and> includes_str sample (ascii ''12.'')
                \<and> \<not> includes_str sample (ascii ''undefined''))
      in \<lparr>name = ascii ''TXT generator'', pass = ok, info = NoInfo\<rparr>)"

text \<open>The routine: the table of the seven results, and the storage it leaves.\<close>

definition runSmokeTests :: "storage \<Rightarrow> (test_result list \<times> storage) option" where
  "runSmokeTests s =
     (case roundtrip_check s of
        None \<Rightarrow> None
      | Some (r6, s') \<Rightarrow> Some (catalog_checks @ [r6, txt_check], s'))"


section \<open>The report and the progress figures as the specification words them\<close>

text \<open>An absent key is an empty answer.\<close>

definition answer_of :: "Answers \<Rightarrow> jsstring \<Rightarrow> jsstring" where
  "answer_of a k = (case map_of a k of None \<Rightarrow> [] | Some v \<Rightarrow> v)"

text \<open>The summary line, written with the figures of the component's progress display.\<close>

definition progress_line :: "Answers \<Rightarrow> jsstring" where
  "progress_line a =
     (let st = \<lparr>answers = a, completed = [], focusId = id' (BLOCKS ! 0)\<rparr>
      in ascii ''Progreso: '' @ toString_nat (filled st) @ ascii ''/'' @ toString_nat total' @
         ascii '' ('' @ toString_int (progress st) @ ascii ''%)'')"

text \<open>
  The four lines of a block: number and title, the question, the trimmed answer or the
  placeholder, and an empty line.
\<close>

definition block_lines :: "Answers \<Rightarrow> Block \<Rightarrow> jsstring list" where
  "block_lines a b =
     [numero b @ ascii '' '' @ titulo b,
      pregunta b,
      (if trim (answer_of a (id' b)) = [] then ascii ''[Sin respuesta]''
       else trim (answer_of a (id' b))),
      []]"

text \<open>
  The document of the specification: title, summary line, an empty line, then the lines
  of the twelve blocks, all joined by single line breaks.
\<close>

definition report_as_specified :: "Answers \<Rightarrow> jsstring" where
  "report_as_specified a =
     join nl ([report_title, progress_line a, []] @ concat (map (block_lines a) BLOCKS))"

text \<open>The answers of the scenario with one padded answer for block \<open>b5\<close>.\<close>

definition answers_b5 :: Answers where
  "answers_b5 =
     [(ascii ''b5'', ascii ''  Necesita mayor automatizaci'' @ [0xF3] @ ascii ''n  '')]"


section \<open>Properties\<close>

subsection \<open>Strings\<close>

lemmas block_defs =
  block_b1_def block_b2_def block_b3_def block_b4_def block_b5_def block_b6_def
  block_b7_def block_b8_def block_b9_def block_b10_def block_b11_def block_b12_def

lemma ascii_eq_Nil [simp]: "(ascii s = []) = (s = [])"
  by (simp add: ascii_def)

lemma ascii_inj [simp]: "(ascii s = ascii t) = (s = t)"
proof -
  have "inj (\<lambda>c. (of_nat (of_char c) :: 16 word))"
  proof (rule injI)
    fix x y :: char
    assume "(of_nat (of_char x) :: 16 word) = of_nat (of_char y)"
    then have "unat (of_nat (of_char x) :: 16 word) = unat (of_nat (of_char y) :: 16 word)"
      by simp
    moreover have "(of_char c :: nat) < 2 ^ 16" for c
    proof -
      have "(of_char c :: nat) = of_char c mod 256" by simp
      also have "\<dots> < 256" by (rule mod_less_divisor) simp
      finally have "(of_char c :: nat) < 256" .
      then show ?thesis by (rule less_trans) simp
    qed
    ultimately have "(of_char x :: nat) = of_char y"
      by (simp add: unat_of_nat take_bit_nat_eq_self_iff)
    then show "x = y" by simp
  qed
  then show ?thesis
    unfolding ascii_def by (simp add: inj_map_eq_map)
qed

lemma trim_Nil [simp]: "trim [] = []"
  by (simp add: trim_def)

subsection \<open>The catalog\<close>

lemma length_BLOCKS: "length BLOCKS = 12"
  by (simp add: BLOCKS_def)

lemma block_ids:
  "id' block_b1 = ascii ''b1''" "id' block_b2 = ascii ''b2''" "id' block_b3 = ascii ''b3''"
  "id' block_b4 = ascii ''b4''" "id' block_b5 = ascii ''b5''" "id' block_b6 = ascii ''b6''"
  "id' block_b7 = ascii ''b7''" "id' block_b8 = ascii ''b8''" "id' block_b9 = ascii ''b9''"
  "id' block_b10 = ascii ''b10''" "id' block_b11 = ascii ''b11''"
  "id' block_b12 = ascii ''b12''"
  by (simp_all add: block_defs)

lemma distinct_ids: "distinct (map id' BLOCKS)"
  by (simp add: BLOCKS_def block_ids)

lemma numero_sequence:
  "map numero BLOCKS =
     map (\<lambda>i. padStart 2 (ascii ''0'') (toString_nat i) @ ascii ''.'') [1..<13]"
  by (simp add: BLOCKS_def block_defs ascii_def padStart_def upt_rec)

lemma titles_and_questions:
  "list_all (\<lambda>b. titulo b \<noteq> [] \<and> pregunta b \<noteq> [] \<and> 0xBF \<in> set (pregunta b)) BLOCKS"
  by (simp add: BLOCKS_def block_defs)

text \<open>
  C4: the catalog is a constant list of exactly 12 blocks; the ids are pairwise distinct;
  the number of the block at position \<open>i\<close> (counted from 1) is \<open>i\<close> padded to two
  digits and followed by a period; every title and every question is non-empty, and
  every question contains the inverted question mark.
\<close>

theorem catalog_well_formed:
  "length BLOCKS = 12
   \<and> distinct (map id' BLOCKS)
   \<and> map numero BLOCKS =
       map (\<lambda>i. padStart 2 (ascii ''0'') (toString_nat i) @ ascii ''.'') [1..<13]
   \<and> list_all (\<lambda>b. titulo b \<noteq> [] \<and> pregunta b \<noteq> [] \<and> 0xBF \<in> set (pregunta b)) BLOCKS"
  using length_BLOCKS distinct_ids numero_sequence titles_and_questions by blast

subsection \<open>The progress figures\<close>

lemma foldl_count:
  "foldl (\<lambda>acc b. acc + (if P b then 1 else 0)) (a::nat) xs = a + length (filter P xs)"
  by (induction xs arbitrary: a) simp_all

lemma truthy_optTrim:
  "truthy (optTrim (map_of a k)) = (trim (answer_of a k) \<noteq> [])"
  by (simp add: truthy_def optTrim_def answer_of_def split: option.split)

lemma orElse_optTrim:
  "orElse (optTrim (map_of a k)) d =
     (if trim (answer_of a k) = [] then d else trim (answer_of a k))"
  by (simp add: orElse_def optTrim_def answer_of_def split: option.split)

lemma filled_count:
  "filled st = length (filter (\<lambda>b. trim (answer_of (answers st) (id' b)) \<noteq> []) BLOCKS)"
  by (simp add: filled_def foldl_count truthy_optTrim)

lemma filled_le_total: "filled st \<le> total'"
  by (simp add: filled_count total'_def)

lemma Math_round_nearest:
  "of_int (Math_round x) - 1 / 2 \<le> x \<and> x < of_int (Math_round x) + 1 / 2"
  unfolding Math_round_def by linarith

lemma Math_round_percent:
  assumes "0 < t"
  shows "Math_round (of_nat f / of_nat t * 100) = int ((200 * f + t) div (2 * t))"
proof -
  have "(of_nat f / of_nat t * 100 + 1 / 2 :: rat) = of_nat (200 * f + t) / of_nat (2 * t)"
    using assms by (simp add: field_simps)
  then show ?thesis
    unfolding Math_round_def by (simp only: floor_divide_of_nat_eq)
qed

lemma progress_div: "progress st = int ((200 * filled st + 12) div 24)"
proof -
  have "Math_round (of_nat (filled st) / of_nat 12 * 100) =
          int ((200 * filled st + 12) div (2 * 12))"
    by (rule Math_round_percent) simp
  then show ?thesis
    by (simp add: progress_def total'_def length_BLOCKS)
qed

text \<open>
  C2: \<open>filled\<close> is the number of catalog blocks whose answer is non-empty after
  trimming; neither replacing the completed list nor toggling an id in it changes
  \<open>filled\<close> or the percentage; the total is 12; and the percentage is the integer
  nearest to \<open>filled / total * 100\<close>, a tie going upwards.
\<close>

theorem progress_figures:
  "filled st = length (filter (\<lambda>b. trim (answer_of (answers st) (id' b)) \<noteq> []) BLOCKS)
   \<and> filled (st\<lparr>completed := c\<rparr>) = filled st
   \<and> filled (onToggleComplete i st) = filled st
   \<and> total' = 12
   \<and> of_int (progress st) - 1 / 2 \<le> (of_nat (filled st) / of_nat total' * 100 :: rat)
   \<and> (of_nat (filled st) / of_nat total' * 100 :: rat) < of_int (progress st) + 1 / 2
   \<and> progress (st\<lparr>completed := c\<rparr>) = progress st
   \<and> progress (onToggleComplete i st) = progress st"
  using Math_round_nearest [of "of_nat (filled st) / of_nat total' * 100"]
  by (simp add: filled_count progress_def total'_def length_BLOCKS filled_def
      onToggleComplete_def)

subsection \<open>The report\<close>

lemma foldl_push:
  "foldl (\<lambda>ls b. ls @ f b) acc xs = acc @ concat (map f xs)"
  by (induction xs arbitrary: acc) simp_all

lemma concat_block_lines_Cons:
  "\<exists>l ls. concat (map (block_lines a) BLOCKS) = l # ls"
  by (simp add: BLOCKS_def block_lines_def)

text \<open>
  What the report builder returns for any answers: the title, a line break, the summary
  line with the figures of the progress display, a line break, and the lines of the
  twelve blocks joined by line breaks.
\<close>

lemma buildTXTContent_layout:
  "buildTXTContent a =
     report_title @ nl @ progress_line a @ nl @
     join nl (concat (map (block_lines a) BLOCKS))"
  by (simp add: buildTXTContent_def Let_def foldl_push progress_line_def filled_def
      progress_def total'_def block_lines_def[abs_def] orElse_optTrim)

lemma buildTXTContent_lines:
  "buildTXTContent a =
     join nl ([report_title, progress_line a] @ concat (map (block_lines a) BLOCKS))"
proof -
  obtain l ls where "concat (map (block_lines a) BLOCKS) = l # ls"
    using concat_block_lines_Cons by blast
  then show ?thesis
    by (simp add: buildTXTContent_layout)
qed

lemma report_as_specified_layout:
  "report_as_specified a =
     report_title @ nl @ progress_line a @ nl @ nl @
     join nl (concat (map (block_lines a) BLOCKS))"
proof -
  obtain l ls where "concat (map (block_lines a) BLOCKS) = l # ls"
    using concat_block_lines_Cons by blast
  then show ?thesis
    by (simp add: report_as_specified_def)
qed

lemma buildTXTContent_one_line_short:
  "length (report_as_specified a) = length (buildTXTContent a) + 1"
  by (simp add: buildTXTContent_layout report_as_specified_layout nl_def)

lemma filled_no_answers: "filled \<lparr>answers = [], completed = c, focusId = f\<rparr> = 0"
  by (simp add: filled_count answer_of_def)

lemma progress_line_no_answers: "progress_line [] = ascii ''Progreso: 0/12 (0%)''"
  by (simp add: progress_line_def Let_def progress_div filled_no_answers total'_def
      length_BLOCKS toString_int_def ascii_def)

lemma block_lines_no_answers:
  "block_lines [] =
     (\<lambda>b. [numero b @ ascii '' '' @ titulo b, pregunta b, ascii ''[Sin respuesta]'', []])"
  by (rule ext) (simp add: block_lines_def answer_of_def)

text \<open>
  C1, at the empty answers object: the report is the title, the summary line and then at
  once the first block's line; the document of the specification has an empty line
  between the summary line and the first block, so the two differ (by that one line
  break).
\<close>

theorem report_without_answers:
  "buildTXTContent [] =
     report_title @ nl @ ascii ''Progreso: 0/12 (0%)'' @ nl @
     join nl (concat (map (\<lambda>b. [numero b @ ascii '' '' @ titulo b, pregunta b,
                                ascii ''[Sin respuesta]'', []]) BLOCKS))
   \<and> report_as_specified [] =
     report_title @ nl @ ascii ''Progreso: 0/12 (0%)'' @ nl @ nl @
     join nl (concat (map (\<lambda>b. [numero b @ ascii '' '' @ titulo b, pregunta b,
                                ascii ''[Sin respuesta]'', []]) BLOCKS))
   \<and> buildTXTContent [] \<noteq> report_as_specified []"
proof -
  have "length (report_as_specified []) \<noteq> length (buildTXTContent [])"
    by (simp add: buildTXTContent_one_line_short)
  then have "buildTXTContent [] \<noteq> report_as_specified []"
    by auto
  then show ?thesis
    by (simp only: buildTXTContent_layout report_as_specified_layout
        progress_line_no_answers block_lines_no_answers simp_thms)
qed

lemma answer_of_b5:
  "map (\<lambda>b. trim (answer_of answers_b5 (id' b))) BLOCKS =
     [[], [], [], [], ascii ''Necesita mayor automatizaci'' @ [0xF3] @ ascii ''n'',
      [], [], [], [], [], [], []]"
  unfolding answers_b5_def answer_of_def
  by (simp add: BLOCKS_def block_ids) (simp add: trim_def ascii_def isWhiteSpace_def)

lemma filled_b5: "filled \<lparr>answers = answers_b5, completed = c, focusId = f\<rparr> = 1"
  using answer_of_b5 by (simp add: filled_count BLOCKS_def)

lemma progress_line_b5: "progress_line answers_b5 = ascii ''Progreso: 1/12 (8%)''"
  by (simp add: progress_line_def Let_def progress_div filled_b5 total'_def length_BLOCKS
      toString_int_def ascii_def)

text \<open>
  C3: with the single padded answer of the scenario (\<open>answers_b5\<close>) for \<open>b5\<close>, the
  progress display has \<open>filled = 1\<close> and \<open>percent = 8\<close>, and the report is the
  title, the line \<open>Progreso: 1/12 (8%)\<close> and the lines of the twelve blocks, where the
  answer line of the fifth block is the trimmed answer and the answer line of each of
  the other eleven blocks is \<open>[Sin respuesta]\<close>.
\<close>

theorem scenario_b5:
  "filled \<lparr>answers = answers_b5, completed = c, focusId = f\<rparr> = 1
   \<and> progress \<lparr>answers = answers_b5, completed = c, focusId = f\<rparr> = 8
   \<and> buildTXTContent answers_b5 =
       join nl ([report_title, ascii ''Progreso: 1/12 (8%)''] @
         concat (map2 (\<lambda>b answer. [numero b @ ascii '' '' @ titulo b, pregunta b, answer, []])
           BLOCKS
           [ascii ''[Sin respuesta]'', ascii ''[Sin respuesta]'', ascii ''[Sin respuesta]'',
            ascii ''[Sin respuesta]'',
            ascii ''Necesita mayor automatizaci'' @ [0xF3] @ ascii ''n'',
            ascii ''[Sin respuesta]'', ascii ''[Sin respuesta]'', ascii ''[Sin respuesta]'',
            ascii ''[Sin respuesta]'', ascii ''[Sin respuesta]'', ascii ''[Sin respuesta]'',
            ascii ''[Sin respuesta]'']))"
proof -
  have "map (block_lines answers_b5) BLOCKS =
          map2 (\<lambda>b answer. [numero b @ ascii '' '' @ titulo b, pregunta b, answer, []])
           BLOCKS
           [ascii ''[Sin respuesta]'', ascii ''[Sin respuesta]'', ascii ''[Sin respuesta]'',
            ascii ''[Sin respuesta]'',
            ascii ''Necesita mayor automatizaci'' @ [0xF3] @ ascii ''n'',
            ascii ''[Sin respuesta]'', ascii ''[Sin respuesta]'', ascii ''[Sin respuesta]'',
            ascii ''[Sin respuesta]'', ascii ''[Sin respuesta]'', ascii ''[Sin respuesta]'',
            ascii ''[Sin respuesta]'']"
    using answer_of_b5 by (simp add: BLOCKS_def block_lines_def)
  then show ?thesis
    by (simp only: buildTXTContent_lines progress_line_b5 filled_b5 progress_div) simp
qed

subsection \<open>Keyboard navigation\<close>

lemma findIndex_distinct:
  "distinct (map f xs) \<Longrightarrow> i < length xs \<Longrightarrow> findIndex (\<lambda>b. f b = f (xs ! i)) xs = int i"
proof (induction xs arbitrary: i)
  case Nil
  then show ?case by simp
next
  case (Cons x xs)
  show ?case
  proof (cases i)
    case 0
    then show ?thesis by simp
  next
    case (Suc j)
    with Cons.prems have j: "j < length xs" and d: "distinct (map f xs)"
      and nx: "f x \<notin> f ` set xs" by auto
    from j nx have "f x \<noteq> f (xs ! j)" by (metis image_eqI nth_mem)
    moreover have "findIndex (\<lambda>b. f b = f (xs ! j)) xs = int j"
      using Cons.IH [OF d j] .
    ultimately show ?thesis using Suc by (simp add: Let_def)
  qed
qed

lemma lower_arrows:
  "toLowerCase (ascii ''ArrowDown'') = ascii ''arrowdown''"
  "toLowerCase (ascii ''ArrowUp'') = ascii ''arrowup''"
  by (simp_all add: toLowerCase_def ascii_def)

lemma h_ArrowDown:
  assumes "key e = ascii ''ArrowDown''"
    and "at_index BLOCKS (min (int (length BLOCKS) - 1)
           (findIndex (\<lambda>b. id' b = focusId cap) BLOCKS + 1)) = Some b"
  shows "h cap e st = Inr (st\<lparr>focusId := id' b\<rparr>, [PreventDefault, ScrollToCard (id' b)])"
  using assms by (simp add: h_def Let_def lower_arrows)

lemma h_ArrowUp:
  assumes "key e = ascii ''ArrowUp''"
    and "at_index BLOCKS (max 0 (findIndex (\<lambda>b. id' b = focusId cap) BLOCKS - 1)) = Some b"
  shows "h cap e st = Inr (st\<lparr>focusId := id' b\<rparr>, [PreventDefault, ScrollToCard (id' b)])"
  using assms by (simp add: h_def Let_def lower_arrows)

text \<open>
  C7: when the focused block is the catalog block at index \<open>i\<close> (counted from 0), the
  key ArrowDown moves the focus to the block at index \<open>min 11 (i + 1)\<close> and the key
  ArrowUp to the block at index \<open>max 0 (i - 1)\<close>, without an exception and without
  wrapping around; the focus starts at the first catalog block.
\<close>

theorem arrow_keys_clamp:
  assumes "i < 12" and "focusId cap = id' (BLOCKS ! i)"
  shows "(key e = ascii ''ArrowDown'' \<longrightarrow>
            h cap e st = Inr (st\<lparr>focusId := id' (BLOCKS ! min 11 (i + 1))\<rparr>,
                             [PreventDefault, ScrollToCard (id' (BLOCKS ! min 11 (i + 1)))]))
       \<and> (key e = ascii ''ArrowUp'' \<longrightarrow>
            h cap e st = Inr (st\<lparr>focusId := id' (BLOCKS ! max 0 (i - 1))\<rparr>,
                             [PreventDefault, ScrollToCard (id' (BLOCKS ! max 0 (i - 1)))]))
       \<and> focusId initial_state = id' (BLOCKS ! 0)"
proof -
  have idx: "findIndex (\<lambda>b. id' b = focusId cap) BLOCKS = int i"
    using assms findIndex_distinct [OF distinct_ids, of i] by (simp add: length_BLOCKS)
  have down: "at_index BLOCKS (min (int (length BLOCKS) - 1) (int i + 1)) =
                Some (BLOCKS ! min 11 (i + 1))"
    using assms by (auto simp: at_index_def length_BLOCKS min_def nat_add_distrib)
  have up: "at_index BLOCKS (max 0 (int i - 1)) = Some (BLOCKS ! max 0 (i - 1))"
    using assms by (auto simp: at_index_def length_BLOCKS max_def nat_diff_distrib)
  show ?thesis
    using h_ArrowDown [of e cap "BLOCKS ! min 11 (i + 1)" st]
      h_ArrowUp [of e cap "BLOCKS ! max 0 (i - 1)" st] down up
    by (simp only: idx initial_state_def) simp
qed

theorem arrow_keys_clamp_witness:
  "h (initial_state\<lparr>focusId := id' (BLOCKS ! 11)\<rparr>)
     \<lparr>key = ascii ''ArrowDown'', ctrlKey = False, metaKey = False, altKey = False\<rparr>
     (initial_state\<lparr>focusId := id' (BLOCKS ! 11)\<rparr>)
   = Inr (initial_state\<lparr>focusId := id' (BLOCKS ! 11)\<rparr>,
          [PreventDefault, ScrollToCard (id' (BLOCKS ! 11))])
   \<and> h initial_state
     \<lparr>key = ascii ''ArrowUp'', ctrlKey = False, metaKey = False, altKey = False\<rparr>
     initial_state
   = Inr (initial_state, [PreventDefault, ScrollToCard (id' (BLOCKS ! 0))])"
  using arrow_keys_clamp [of 11 "initial_state\<lparr>focusId := id' (BLOCKS ! 11)\<rparr>"
      "\<lparr>key = ascii ''ArrowDown'', ctrlKey = False, metaKey = False, altKey = False\<rparr>"
      "initial_state\<lparr>focusId := id' (BLOCKS ! 11)\<rparr>"]
    arrow_keys_clamp [of 0 initial_state
      "\<lparr>key = ascii ''ArrowUp'', ctrlKey = False, metaKey = False, altKey = False\<rparr>"
      initial_state]
  by (simp add: initial_state_def)

subsection \<open>The cards\<close>

text \<open>
  C8: the clear button of a card sets the answer of its block to the empty string (it is
  \<open>onChange\<close> with the empty string); the answer of every other id, the completed list
  and the focus are as before.
\<close>

theorem clear_keeps_the_rest:
  "map_of (answers (onLimpiar b st)) = (map_of (answers st))(id' b \<mapsto> [])
   \<and> completed (onLimpiar b st) = completed st
   \<and> focusId (onLimpiar b st) = focusId st
   \<and> onLimpiar b st = onChange (id' b) [] st
   \<and> card_value (onLimpiar b st) b = []"
  by (simp add: onLimpiar_def onChange_def AList.update_conv' card_value_def orElse_def)

lemma length_dropWhile_eq: "(length (dropWhile P xs) = length xs) = (dropWhile P xs = xs)"
proof
  assume "length (dropWhile P xs) = length xs"
  moreover have "length (takeWhile P xs) + length (dropWhile P xs) = length xs"
    by (metis length_append takeWhile_dropWhile_id)
  ultimately have "takeWhile P xs = []" by simp
  then show "dropWhile P xs = xs"
    by (metis append_Nil takeWhile_dropWhile_id)
qed simp

lemma length_trim_dropWhile: "length (trim s) \<le> length (dropWhile isWhiteSpace s)"
  unfolding trim_def
  using length_dropWhile_le [of isWhiteSpace "rev (dropWhile isWhiteSpace s)"] by simp

lemma length_trim_le: "length (trim s) \<le> length s"
proof -
  note length_trim_dropWhile
  also have "length (dropWhile isWhiteSpace s) \<le> length s" by (rule length_dropWhile_le)
  finally show ?thesis .
qed

lemma length_trim_eq: "(length (trim s) = length s) = (trim s = s)"
proof
  assume eq: "length (trim s) = length s"
  have "length (dropWhile isWhiteSpace s) \<le> length s" by (rule length_dropWhile_le)
  with eq length_trim_dropWhile [of s] have "length (dropWhile isWhiteSpace s) = length s"
    by simp
  then have b: "dropWhile isWhiteSpace s = s" by (simp add: length_dropWhile_eq)
  from eq b have "length (dropWhile isWhiteSpace (rev s)) = length (rev s)"
    by (simp add: trim_def)
  then have "dropWhile isWhiteSpace (rev s) = rev s" by (simp only: length_dropWhile_eq)
  with b show "trim s = s" by (simp add: trim_def)
qed simp

text \<open>
  C9, as the code has it: the counter of a card is the length of the answer after
  trimming. It is never more than the length of the stored answer, and the two agree
  exactly when trimming leaves the stored answer as it is.
\<close>

theorem count_is_trimmed_length:
  "count (onChange (id' b) s st) b = length (trim s)
   \<and> count (onChange (id' b) s st) b \<le> length s
   \<and> (count (onChange (id' b) s st) b = length s) = (trim s = s)"
proof -
  have "card_value (onChange (id' b) s st) b = s"
    by (simp add: card_value_def onChange_def AList.update_conv' orElse_def)
  then show ?thesis
    by (simp add: count_def length_trim_le length_trim_eq)
qed

text \<open>
  The stored answer \<open>"  a  "\<close> of block \<open>b1\<close> has five characters, and the counter
  of the card shows 1.
\<close>

theorem count_untrimmed_counterexample:
  "card_value (onChange (id' block_b1) (ascii ''  a  '') initial_state) block_b1
     = ascii ''  a  ''
   \<and> length (card_value (onChange (id' block_b1) (ascii ''  a  '') initial_state) block_b1) = 5
   \<and> count (onChange (id' block_b1) (ascii ''  a  '') initial_state) block_b1 = 1
   \<and> count (onChange (id' block_b1) (ascii ''  a  '') initial_state) block_b1
       \<noteq> length (card_value (onChange (id' block_b1) (ascii ''  a  '') initial_state) block_b1)"
  by (simp add: card_value_def onChange_def initial_state_def orElse_def count_def trim_def
      isWhiteSpace_def ascii_def)

subsection \<open>The parser of JSON\<close>

text \<open>What a parser leaves of its input is shorter than the input.\<close>

lemma length_skip_ws: "length (skip_ws s) \<le> length s"
  by (simp add: skip_ws_def length_dropWhile_le)

lemma skip_ws_Cons: "skip_ws s = c # cs \<Longrightarrow> length cs < length s"
  using length_skip_ws [of s] by simp

lemma prepend_Inr: "prepend c x = Inr (str, r) \<Longrightarrow> \<exists>str'. x = Inr (str', r)"
  by (auto simp: prepend_def split: sum.splits)

lemma parse_string_rest: "parse_string cs = Inr (str, r) \<Longrightarrow> length r < length cs"
proof (induction cs arbitrary: str r rule: length_induct)
  case (1 cs)
  show ?case
  proof (cases cs)
    case Nil
    with "1.prems" show ?thesis by simp
  next
    case (Cons c cs')
    with "1.prems"
    have "r = cs' \<or> (\<exists>ys str'. length ys < length cs \<and> parse_string ys = Inr (str', r))"
      by (auto split: if_splits list.splits option.splits dest!: prepend_Inr)
    then show ?thesis
    proof
      assume "r = cs'"
      with Cons show ?thesis by simp
    next
      assume "\<exists>ys str'. length ys < length cs \<and> parse_string ys = Inr (str', r)"
      then obtain ys str' where ys: "length ys < length cs" "parse_string ys = Inr (str', r)"
        by blast
      with "1.IH" have "length r < length ys" by blast
      with ys show ?thesis by simp
    qed
  qed
qed

lemma startsWith_single: "startsWith s [c] \<Longrightarrow> s \<noteq> []"
  by (cases s) simp_all

lemma parse_number_rest:
  assumes "parse_number s = Inr (lit, r)"
  shows "length r < length s"
proof -
  define sign :: jsstring where "sign = (if startsWith s [0x2D] then [0x2D] else [])"
  define s1 where "s1 = drop (length sign) s"
  define ip where "ip = (if startsWith s1 [0x30] then [0x30] else takeWhile is_digit s1)"
  define s2 where "s2 = drop (length ip) s1"
  define fd where "fd = (if startsWith s2 [0x2E] then takeWhile is_digit (drop 1 s2) else [])"
  define frac where "frac = (if startsWith s2 [0x2E] then 0x2E # fd else [])"
  define s3 where "s3 = drop (length frac) s2"
  define hasExp where "hasExp = (startsWith s3 [0x65] \<or> startsWith s3 [0x45])"
  define s4 where "s4 = drop 1 s3"
  define es :: jsstring where "es = (if startsWith s4 [0x2B] then [0x2B]
                else if startsWith s4 [0x2D] then [0x2D] else [])"
  define ed where "ed = takeWhile is_digit (drop (length es) s4)"
  define ex where "ex = (if hasExp then take 1 s3 @ es @ ed else [])"
  have "parse_number s =
          (if ip = [] \<or> (startsWith s2 [0x2E] \<and> fd = []) \<or> (hasExp \<and> ed = [])
           then Inl SyntaxError
           else Inr (sign @ ip @ frac @ ex, drop (length ex) s3))"
    unfolding parse_number_def sign_def s1_def ip_def s2_def fd_def frac_def s3_def hasExp_def
      s4_def es_def ed_def ex_def
    by (simp only: Let_def)
  with assms have ip: "ip \<noteq> []" and r: "r = drop (length ex) s3"
    by (auto split: if_splits)
  have "length ip \<le> length s1"
  proof (cases "startsWith s1 [0x30]")
    case True
    then have "s1 \<noteq> []" by (rule startsWith_single)
    with True show ?thesis by (cases s1) (simp_all add: ip_def)
  next
    case False
    then show ?thesis by (simp add: ip_def length_takeWhile_le)
  qed
  moreover from ip have "0 < length ip" by simp
  ultimately have "length s2 < length s1" unfolding s2_def length_drop by arith
  moreover have "length r \<le> length s2" by (simp add: r s3_def)
  moreover have "length s1 \<le> length s" by (simp add: s1_def)
  ultimately show ?thesis by simp
qed


lemma parse_value_rest_step:
  assumes IH: "\<And>s v r vs ms.
      (parse_elements n vs s = Some (Inr (v, r)) \<longrightarrow> length r < length s)
      \<and> (parse_members n ms s = Some (Inr (v, r)) \<longrightarrow> length r < length s)"
    and res: "parse_value (Suc n) s = Some (Inr (v, r))"
  shows "length r < length s"
proof (cases "skip_ws s")
  case Nil
  with res show ?thesis by simp
next
  case (Cons c cs)
  then have cs: "length cs < length s" by (rule skip_ws_Cons)
  show ?thesis
  proof (cases "c = 0x22")
    case True
    with res Cons obtain str where "parse_string cs = Inr (str, r)"
      by (auto split: sum.splits)
    then have "length r < length cs" by (rule parse_string_rest)
    with cs show ?thesis by simp
  next
    case n1: False
    show ?thesis
    proof (cases "c = 0x5B")
      case True
      with res Cons n1 have
        "(\<exists>ds. skip_ws cs = 0x5D # ds \<and> r = ds) \<or> parse_elements n [] cs = Some (Inr (v, r))"
        by (auto split: list.splits if_splits)
      then have "length r < length cs"
        using skip_ws_Cons IH by blast
      with cs show ?thesis by simp
    next
      case n2: False
      show ?thesis
      proof (cases "c = 0x7B")
        case True
        with res Cons n1 n2 have
          "(\<exists>ds. skip_ws cs = 0x7D # ds \<and> r = ds) \<or> parse_members n [] cs = Some (Inr (v, r))"
          by (auto split: list.splits if_splits)
        then have "length r < length cs"
          using skip_ws_Cons IH by blast
        with cs show ?thesis by simp
      next
        case n3: False
        from res Cons n1 n2 n3 have
          "r = drop 4 (c # cs) \<or> r = drop 5 (c # cs)
           \<or> (\<exists>lit. parse_number (c # cs) = Inr (lit, r))"
          by (simp split: if_splits sum.splits prod.splits)
        then show ?thesis
        proof (elim disjE exE)
          assume "r = drop 4 (c # cs)"
          with cs show ?thesis by simp
        next
          assume "r = drop 5 (c # cs)"
          with cs show ?thesis by simp
        next
          fix lit assume "parse_number (c # cs) = Inr (lit, r)"
          then have "length r < length (c # cs)" by (rule parse_number_rest)
          with cs show ?thesis by simp
        qed
      qed
    qed
  qed
qed


lemma parse_elements_rest_step:
  assumes IHv: "\<And>s v r. parse_value n s = Some (Inr (v, r)) \<Longrightarrow> length r < length s"
    and IHe: "\<And>vs s v r. parse_elements n vs s = Some (Inr (v, r)) \<Longrightarrow> length r < length s"
    and res: "parse_elements (Suc n) vs s = Some (Inr (v, r))"
  shows "length r < length s"
proof -
  from res obtain v1 r1 where pv: "parse_value n s = Some (Inr (v1, r1))"
    by (auto split: option.splits sum.splits)
  then have r1: "length r1 < length s" by (rule IHv)
  show ?thesis
  proof (cases "skip_ws r1")
    case Nil
    with res pv show ?thesis by simp
  next
    case (Cons c cs)
    then have cs: "length cs < length r1" by (rule skip_ws_Cons)
    from res pv Cons have "parse_elements n (vs @ [v1]) cs = Some (Inr (v, r)) \<or> r = cs"
      by (auto split: if_splits)
    then have "length r \<le> length cs" using IHe by (auto simp: less_imp_le)
    with cs r1 show ?thesis by simp
  qed
qed

lemma parse_members_rest_step:
  assumes IHv: "\<And>s v r. parse_value n s = Some (Inr (v, r)) \<Longrightarrow> length r < length s"
    and IHm: "\<And>ms s v r. parse_members n ms s = Some (Inr (v, r)) \<Longrightarrow> length r < length s"
    and res: "parse_members (Suc n) ms s = Some (Inr (v, r))"
  shows "length r < length s"
proof (cases "skip_ws s")
  case Nil
  with res show ?thesis by simp
next
  case (Cons q qs)
  then have qs: "length qs < length s" by (rule skip_ws_Cons)
  from res Cons have q: "q = 0x22" by (auto split: if_splits)
  from res Cons q obtain k r0 where ps: "parse_string qs = Inr (k, r0)"
    by (auto split: sum.splits)
  then have r0: "length r0 < length qs" by (rule parse_string_rest)
  show ?thesis
  proof (cases "skip_ws r0")
    case Nil
    with res Cons q ps show ?thesis by simp
  next
    case c2: (Cons d ds)
    then have ds: "length ds < length r0" by (rule skip_ws_Cons)
    from res Cons q ps c2 have d: "d = 0x3A" by (auto split: if_splits)
    from res Cons q ps c2 d obtain v1 r2 where pv: "parse_value n ds = Some (Inr (v1, r2))"
      by (auto split: option.splits sum.splits)
    then have r2: "length r2 < length ds" by (rule IHv)
    show ?thesis
    proof (cases "skip_ws r2")
      case Nil
      with res Cons q ps c2 d pv show ?thesis by simp
    next
      case c3: (Cons c cs)
      then have cs: "length cs < length r2" by (rule skip_ws_Cons)
      from res Cons q ps c2 d pv c3
      have "parse_members n (AList.update k v1 ms) cs = Some (Inr (v, r)) \<or> r = cs"
        by (auto split: if_splits)
      then have "length r \<le> length cs" using IHm by (auto simp: less_imp_le)
      with cs r2 ds r0 qs show ?thesis by simp
    qed
  qed
qed

lemma parse_rest:
  "(parse_value n s = Some (Inr (v, r)) \<longrightarrow> length r < length s)
   \<and> (parse_elements n vs s = Some (Inr (v, r)) \<longrightarrow> length r < length s)
   \<and> (parse_members n ms s = Some (Inr (v, r)) \<longrightarrow> length r < length s)"
proof (induction n arbitrary: s v r vs ms)
  case 0
  then show ?case by simp
next
  case (Suc n)
  have v: "length r < length s" if "parse_value n s = Some (Inr (v, r))" for s v r
    using that Suc by blast
  have e: "length r < length s" if "parse_elements n vs s = Some (Inr (v, r))" for s v r vs
    using that Suc by blast
  have m: "length r < length s" if "parse_members n ms s = Some (Inr (v, r))" for s v r ms
    using that Suc by blast
  have "parse_value (Suc n) s = Some (Inr (v, r)) \<Longrightarrow> length r < length s"
    by (rule parse_value_rest_step [where n = n]) (use e m in blast)+
  moreover have "parse_elements (Suc n) vs s = Some (Inr (v, r)) \<Longrightarrow> length r < length s"
    by (rule parse_elements_rest_step [where n = n]) (use v e in blast)+
  moreover have "parse_members (Suc n) ms s = Some (Inr (v, r)) \<Longrightarrow> length r < length s"
    by (rule parse_members_rest_step [where n = n]) (use v m in blast)+
  ultimately show ?case by blast
qed

lemma parse_value_rest: "parse_value n s = Some (Inr (v, r)) \<Longrightarrow> length r < length s"
  using parse_rest by blast


text \<open>The bound of \<open>JSON_parse\<close> on the depth of the calls is never reached.\<close>

lemma parse_value_total_step:
  assumes IHe: "\<And>vs s. 2 * length s + 2 \<le> n \<Longrightarrow> parse_elements n vs s \<noteq> None"
    and IHm: "\<And>ms s. 2 * length s + 2 \<le> n \<Longrightarrow> parse_members n ms s \<noteq> None"
    and fuel: "2 * length s + 1 \<le> Suc n"
  shows "parse_value (Suc n) s \<noteq> None"
proof (cases "skip_ws s")
  case Nil
  then show ?thesis by simp
next
  case (Cons c cs)
  then have "length cs < length s" by (rule skip_ws_Cons)
  with fuel have "2 * length cs + 2 \<le> n" by simp
  then have e: "parse_elements n [] cs \<noteq> None" and m: "parse_members n [] cs \<noteq> None"
    using IHe IHm by blast+
  show ?thesis
  proof (cases "c = 0x22")
    case True
    with Cons show ?thesis by (simp split: sum.splits)
  next
    case n1: False
    show ?thesis
    proof (cases "c = 0x5B")
      case True
      with Cons n1 e show ?thesis by (simp split: list.splits)
    next
      case n2: False
      show ?thesis
      proof (cases "c = 0x7B")
        case True
        with Cons n1 n2 m show ?thesis by (simp split: list.splits)
      next
        case n3: False
        with Cons n1 n2 show ?thesis by (simp split: sum.splits)
      qed
    qed
  qed
qed

lemma parse_elements_total_step:
  assumes IHv: "\<And>s. 2 * length s + 1 \<le> n \<Longrightarrow> parse_value n s \<noteq> None"
    and IHe: "\<And>vs s. 2 * length s + 2 \<le> n \<Longrightarrow> parse_elements n vs s \<noteq> None"
    and fuel: "2 * length s + 2 \<le> Suc n"
  shows "parse_elements (Suc n) vs s \<noteq> None"
proof -
  from fuel have "parse_value n s \<noteq> None" by (intro IHv) simp
  then obtain res where res: "parse_value n s = Some res" by blast
  show ?thesis
  proof (cases res)
    case (Inl err)
    with res show ?thesis by simp
  next
    case (Inr p)
    obtain v1 r1 where p: "p = (v1, r1)" by (cases p)
    with res Inr have pv: "parse_value n s = Some (Inr (v1, r1))" by simp
    then have r1: "length r1 < length s" by (rule parse_value_rest)
    show ?thesis
    proof (cases "skip_ws r1")
      case Nil
      with pv show ?thesis by simp
    next
      case (Cons c cs)
      then have "length cs < length r1" by (rule skip_ws_Cons)
      with r1 fuel have "2 * length cs + 2 \<le> n" by simp
      then have "parse_elements n (vs @ [v1]) cs \<noteq> None" by (rule IHe)
      with pv Cons show ?thesis by simp
    qed
  qed
qed

lemma parse_members_total_step:
  assumes IHv: "\<And>s. 2 * length s + 1 \<le> n \<Longrightarrow> parse_value n s \<noteq> None"
    and IHm: "\<And>ms s. 2 * length s + 2 \<le> n \<Longrightarrow> parse_members n ms s \<noteq> None"
    and fuel: "2 * length s + 2 \<le> Suc n"
  shows "parse_members (Suc n) ms s \<noteq> None"
proof (cases "skip_ws s")
  case Nil
  then show ?thesis by simp
next
  case (Cons q qs)
  then have qs: "length qs < length s" by (rule skip_ws_Cons)
  show ?thesis
  proof (cases "q = 0x22")
    case False
    with Cons show ?thesis by simp
  next
    case q: True
    show ?thesis
    proof (cases "parse_string qs")
      case (Inl err)
      with Cons q show ?thesis by simp
    next
      case (Inr p)
      obtain k r0 where p: "p = (k, r0)" by (cases p)
      with Inr have ps: "parse_string qs = Inr (k, r0)" by simp
      then have r0: "length r0 < length qs" by (rule parse_string_rest)
      show ?thesis
      proof (cases "skip_ws r0")
        case Nil
        with Cons q ps show ?thesis by simp
      next
        case c2: (Cons d ds)
        then have ds: "length ds < length r0" by (rule skip_ws_Cons)
        show ?thesis
        proof (cases "d = 0x3A")
          case False
          with Cons q ps c2 show ?thesis by simp
        next
          case d: True
          from ds r0 qs fuel have "parse_value n ds \<noteq> None" by (intro IHv) simp
          then obtain res where res: "parse_value n ds = Some res" by blast
          show ?thesis
          proof (cases res)
            case (Inl err)
            with Cons q ps c2 d res show ?thesis by simp
          next
            case i2: (Inr p2)
            obtain v1 r2 where "p2 = (v1, r2)" by (cases p2)
            with res i2 have pv: "parse_value n ds = Some (Inr (v1, r2))" by simp
            then have r2: "length r2 < length ds" by (rule parse_value_rest)
            show ?thesis
            proof (cases "skip_ws r2")
              case Nil
              with Cons q ps c2 d pv show ?thesis by simp
            next
              case c3: (Cons c cs)
              then have "length cs < length r2" by (rule skip_ws_Cons)
              with r2 ds r0 qs fuel have "2 * length cs + 2 \<le> n" by simp
              then have "parse_members n (AList.update k v1 ms) cs \<noteq> None" by (rule IHm)
              with Cons q ps c2 d pv c3 show ?thesis by simp
            qed
          qed
        qed
      qed
    qed
  qed
qed

lemma parse_total:
  "(2 * length s + 1 \<le> n \<longrightarrow> parse_value n s \<noteq> None)
   \<and> (2 * length s + 2 \<le> n \<longrightarrow> parse_elements n vs s \<noteq> None)
   \<and> (2 * length s + 2 \<le> n \<longrightarrow> parse_members n ms s \<noteq> None)"
proof (induction n arbitrary: s vs ms)
  case 0
  then show ?case by simp
next
  case (Suc n)
  have v: "parse_value n s \<noteq> None" if "2 * length s + 1 \<le> n" for s
    using that Suc by blast
  have e: "parse_elements n vs s \<noteq> None" if "2 * length s + 2 \<le> n" for s vs
    using that Suc by blast
  have m: "parse_members n ms s \<noteq> None" if "2 * length s + 2 \<le> n" for s ms
    using that Suc by blast
  have "2 * length s + 1 \<le> Suc n \<Longrightarrow> parse_value (Suc n) s \<noteq> None"
    using e m by (rule parse_value_total_step)
  moreover have "2 * length s + 2 \<le> Suc n \<Longrightarrow> parse_elements (Suc n) vs s \<noteq> None"
    using v e by (rule parse_elements_total_step)
  moreover have "2 * length s + 2 \<le> Suc n \<Longrightarrow> parse_members (Suc n) ms s \<noteq> None"
    using v m by (rule parse_members_total_step)
  ultimately show ?case by blast
qed

text \<open>\<open>JSON.parse\<close> returns for every text: a value or an exception.\<close>

lemma JSON_parse_returns: "\<exists>res. JSON_parse s = Some res"
proof -
  have "parse_value (Suc (2 * length s)) s \<noteq> None"
    using parse_total [of s "Suc (2 * length s)"] by simp
  then show ?thesis
    by (auto simp: JSON_parse_def split: option.splits sum.splits prod.splits)
qed

subsection \<open>Persistence\<close>

lemma length_ascii: "length (ascii s) = length s"
  by (simp add: ascii_def)

lemma length_KEY: "length KEY = 27"
  by (simp add: KEY_def length_ascii)

lemma getItem_setItem: "setItem s k v = Inr s' \<Longrightarrow> getItem s' k = Some v"
  by (auto simp: setItem_def getItem_def Let_def AList.update_conv' split: if_splits)

text \<open>Whatever \<open>setItem\<close> throws leaves the save effect: nothing catches it.\<close>

lemma save_effect_throws:
  "setItem s KEY (JSON_stringify \<lparr>answers' = answers st, completed' = completed st\<rparr>) = Inl err
   \<Longrightarrow> save_effect st s = Inl err"
  by (simp add: save_effect_def)

lemma stringify_b1:
  \<open>JSON_stringify \<lparr>answers' = [(ascii ''b1'', ascii ''ok'')], completed' = [ascii ''b1'']\<rparr>
     = ascii ''{"answers":{"b1":"ok"},"completed":["b1"]}''\<close>
  by (simp add: JSON_stringify_def quote_def ascii_def is_high_surrogate_def
      is_low_surrogate_def)

lemma parse_b1:
  \<open>JSON_parse (ascii ''{"answers":{"b1":"ok"},"completed":["b1"]}'') =
     Some (Inr (JObj [(ascii ''answers'', JObj [(ascii ''b1'', JStr (ascii ''ok''))]),
                      (ascii ''completed'', JArr [JStr (ascii ''b1'')])]))\<close>
  by code_simp

lemma load_b1:
  assumes \<open>getItem s KEY = Some (ascii ''{"answers":{"b1":"ok"},"completed":["b1"]}'')\<close>
  shows "load_effect s st0 =
           Some (st0\<lparr>answers := [(ascii ''b1'', ascii ''ok'')], completed := [ascii ''b1'']\<rparr>)"
  by (simp add: load_effect_def assms parse_b1 get_prop_def orDefault_def as_Answers_def
      as_completed_def)

text \<open>The round trip of the self-check passes whenever the storage takes the item.\<close>

lemma roundtrip_check_passes:
  assumes "setItem s (KEY @ ascii ''_test'')
             (JSON_stringify \<lparr>answers' = [(ascii ''b1'', ascii ''ok'')],
                              completed' = [ascii ''b1'']\<rparr>) = Inr s1"
  shows "roundtrip_check s =
           Some (\<lparr>name = ascii ''localStorage roundtrip'', pass = True, info = NoInfo\<rparr>,
                 removeItem s1 (KEY @ ascii ''_test''))"
proof -
  have "getItem s1 (KEY @ ascii ''_test'') =
          Some (JSON_stringify \<lparr>answers' = [(ascii ''b1'', ascii ''ok'')],
                                completed' = [ascii ''b1'']\<rparr>)"
    using assms by (rule getItem_setItem)
  then show ?thesis
    using assms
    by (simp add: roundtrip_check_def Let_def stringify_b1 orElse_def parse_b1 get_prop_def)
qed

text \<open>
  C5, at a storage that accepts nothing more (quota 0) and the initial state: the save
  effect ends with the exception \<open>QuotaExceededError\<close>, which nothing in it catches;
  the round trip of the self-check, on the same storage, catches the same exception and
  reports a failed check.
\<close>

theorem save_effect_quota_exceeded:
  "save_effect initial_state \<lparr>items = [], quota = 0\<rparr> = Inl QuotaExceededError
   \<and> roundtrip_check \<lparr>items = [], quota = 0\<rparr> =
       Some (\<lparr>name = ascii ''localStorage roundtrip'', pass = False,
              info = ErrorInfo QuotaExceededError\<rparr>, \<lparr>items = [], quota = 0\<rparr>)"
  by (simp add: save_effect_def roundtrip_check_def setItem_def used_def Let_def length_ascii
      length_KEY)

text \<open>
  C6: when the save effect has stored the state with the answer \<open>ok\<close> for \<open>b1\<close>
  and \<open>b1\<close> completed, the item under the key is the JSON text of that state, and the
  load effect, from any state, ends in the state with exactly these answers and this
  completed list; so the answer for \<open>b1\<close> is \<open>ok\<close>.
\<close>

theorem persist_then_load:
  assumes "save_effect \<lparr>answers = [(ascii ''b1'', ascii ''ok'')], completed = [ascii ''b1''],
                         focusId = f\<rparr> s = Inr s'"
  shows \<open>getItem s' KEY = Some (ascii ''{"answers":{"b1":"ok"},"completed":["b1"]}'')
       \<and> load_effect s' st0 =
           Some (st0\<lparr>answers := [(ascii ''b1'', ascii ''ok'')], completed := [ascii ''b1'']\<rparr>)
       \<and> map_option (\<lambda>st'. map_of (answers st') (ascii ''b1'')) (load_effect s' st0)
           = Some (Some (ascii ''ok''))\<close>
proof -
  have \<open>getItem s' KEY = Some (ascii ''{"answers":{"b1":"ok"},"completed":["b1"]}'')\<close>
    using assms getItem_setItem [of s KEY _ s'] by (simp add: save_effect_def stringify_b1)
  then show ?thesis
    by (simp add: load_b1)
qed

theorem persist_then_load_witness:
  \<open>load_effect \<lparr>items = [(KEY, ascii ''{"answers":{"b1":"ok"},"completed":["b1"]}'')],
                 quota = 5000000\<rparr> initial_state =
     Some (initial_state\<lparr>answers := [(ascii ''b1'', ascii ''ok'')],
                          completed := [ascii ''b1'']\<rparr>)\<close>
proof -
  have \<open>save_effect \<lparr>answers = [(ascii ''b1'', ascii ''ok'')], completed = [ascii ''b1''],
                      focusId = ascii ''b1''\<rparr> \<lparr>items = [], quota = 5000000\<rparr>
        = Inr \<lparr>items = [(KEY, ascii ''{"answers":{"b1":"ok"},"completed":["b1"]}'')],
                 quota = 5000000\<rparr>\<close>
    by (simp add: save_effect_def stringify_b1 setItem_def used_def Let_def length_ascii
        length_KEY)
  from persist_then_load [OF this] show ?thesis by simp
qed

subsection \<open>The self-check\<close>

lemma spot_first: "includes_str (pregunta (BLOCKS ! 0)) (ascii ''presupuestales'')"
  by (simp add: BLOCKS_def block_b1_def ascii_def)

lemma spot_last:
  "\<not> includes_str (pregunta (BLOCKS ! 11)) (ascii ''baja adopci'' @ [0xF3] @ ascii ''n'')"
  by (simp add: BLOCKS_def block_b12_def ascii_def)

lemma includes_str_single: "includes_str s [c] = (c \<in> set s)"
  by (induction s) auto

lemma seq_check:
  "list_all (\<lambda>(i, b). numero b = padStart 2 (ascii ''0'') (toString_nat (i + 1)) @ ascii ''.'')
     (enumerate 0 BLOCKS)"
  by (simp add: BLOCKS_def block_defs ascii_def padStart_def)

text \<open>
  C10, on the shipped catalog: of the five catalog checks of the routine the first four
  pass and the fifth, the spot check, fails: the question of the first block contains
  \<open>presupuestales\<close>, but the question of the twelfth block does not contain the
  second key string of the check. The five results are the first five rows of the table
  of the routine.
\<close>

theorem spot_check_fails:
  "map pass catalog_checks = [True, True, True, True, False]
   \<and> includes_str (pregunta (BLOCKS ! 0)) (ascii ''presupuestales'')
   \<and> \<not> includes_str (pregunta (BLOCKS ! 11)) (ascii ''baja adopci'' @ [0xF3] @ ascii ''n'')
   \<and> map_option (\<lambda>(rs, s'). take 5 rs) (runSmokeTests s)
       = map_option (\<lambda>(rs, s'). catalog_checks) (runSmokeTests s)"
proof -
  have ne: "list_all (\<lambda>b. titulo b \<noteq> [] \<and> pregunta b \<noteq> [] \<and> includes_str (pregunta b) [0xBF])
              BLOCKS"
    using titles_and_questions by (simp add: includes_str_single)
  have len5: "length catalog_checks = 5"
    by (simp add: catalog_checks_def Let_def)
  have "map pass catalog_checks = [True, True, True, True, False]"
    using distinct_ids ne seq_check spot_first spot_last
    by (simp add: catalog_checks_def Let_def length_BLOCKS)
  moreover have "map_option (\<lambda>(rs, s'). take 5 rs) (runSmokeTests s)
       = map_option (\<lambda>(rs, s'). catalog_checks) (runSmokeTests s)"
    by (simp add: runSmokeTests_def len5 split: option.split prod.split)
  ultimately show ?thesis
    using spot_first spot_last by blast
qed

end
